theory Spec2Isabelle
  imports Complex_Main "HOL-Library.Word"
begin

unbundle bit_operations_syntax

section \<open>Byte buffers and the DataView accessors\<close>

text \<open>
  An \<open>ArrayBuffer\<close> is a list of bytes. The accessors of \<open>DataView\<close> raise a
  \<open>RangeError\<close> when the bytes they touch are not all inside the buffer; every such raise is
  a branch of the model. The four \<open>Error\<close> values that \<open>parseExifDates\<close> throws itself
  are named after their messages.
\<close>

type_synonym byte = "8 word"
type_synonym buffer = "byte list"

datatype error =
    NotAJpeg              \<comment> \<open>\<open>Error("Not a JPEG")\<close>\<close>
  | NoExifApp1            \<comment> \<open>\<open>Error("No EXIF APP1 segment found")\<close>\<close>
  | InvalidByteOrder      \<comment> \<open>\<open>Error("Invalid TIFF byte order")\<close>\<close>
  | InvalidTiffHeader     \<comment> \<open>\<open>Error("Invalid TIFF header")\<close>\<close>
  | RangeError            \<comment> \<open>raised by \<open>DataView\<close> and by typed arrays\<close>
  | TypeError             \<comment> \<open>raised by a property access on \<open>undefined\<close>\<close>
  | NonIntegerOffset      \<comment> \<open>not a JavaScript error: the boundary of the model, see \<open>pointerOffset\<close>\<close>

text \<open>
  The failure classes of the specification, as a view on the errors of the parse. The last two
  errors belong to none of them.
\<close>

datatype failure = FormatError | SegmentError | HeaderError

fun failureOf :: "error \<Rightarrow> failure option" where
  "failureOf NotAJpeg = Some FormatError"
| "failureOf NoExifApp1 = Some SegmentError"
| "failureOf InvalidByteOrder = Some HeaderError"
| "failureOf InvalidTiffHeader = Some HeaderError"
| "failureOf RangeError = Some HeaderError"
| "failureOf TypeError = None"
| "failureOf NonIntegerOffset = None"

definition andThen :: "error + 'a \<Rightarrow> ('a \<Rightarrow> error + 'b) \<Rightarrow> error + 'b" where
  "andThen r f = (case r of Inl e \<Rightarrow> Inl e | Inr x \<Rightarrow> f x)"

definition getUint8 :: "buffer \<Rightarrow> nat \<Rightarrow> error + nat" where
  "getUint8 b off =
     (if off + 1 \<le> length b then Inr (unat (b ! off)) else Inl RangeError)"

definition getUint16 :: "buffer \<Rightarrow> nat \<Rightarrow> bool \<Rightarrow> error + nat" where
  "getUint16 b off littleEndian =
     (if off + 2 \<le> length b then
        Inr (if littleEndian
             then unat (b ! off) + 256 * unat (b ! (off + 1))
             else 256 * unat (b ! off) + unat (b ! (off + 1)))
      else Inl RangeError)"

definition getUint32 :: "buffer \<Rightarrow> nat \<Rightarrow> bool \<Rightarrow> error + nat" where
  "getUint32 b off littleEndian =
     (if off + 4 \<le> length b then
        Inr (if littleEndian
             then unat (b ! off) + 256 * unat (b ! (off + 1))
                  + 65536 * unat (b ! (off + 2)) + 16777216 * unat (b ! (off + 3))
             else 16777216 * unat (b ! off) + 65536 * unat (b ! (off + 1))
                  + 256 * unat (b ! (off + 2)) + unat (b ! (off + 3)))
      else Inl RangeError)"

text \<open>\<open>new DataView(buffer, byteOffset, byteLength)\<close>: a window, or a \<open>RangeError\<close>.\<close>

definition subView :: "buffer \<Rightarrow> nat \<Rightarrow> nat \<Rightarrow> error + buffer" where
  "subView b byteOffset byteLength =
     (if byteOffset + byteLength \<le> length b
      then Inr (take byteLength (drop byteOffset b))
      else Inl RangeError)"

section \<open>The constants of \<open>TAGS\<close>\<close>

definition TAG_DateTime :: nat where "TAG_DateTime = 0x0132"
definition TAG_ExifIFDPointer :: nat where "TAG_ExifIFDPointer = 0x8769"
definition TAG_GPSInfoIFDPointer :: nat where "TAG_GPSInfoIFDPointer = 0x8825"
definition TAG_DateTimeOriginal :: nat where "TAG_DateTimeOriginal = 0x9003"
definition TAG_DateTimeDigitized :: nat where "TAG_DateTimeDigitized = 0x9004"
definition TAG_GPSDateStamp :: nat where "TAG_GPSDateStamp = 0x001d"
definition TAG_GPSTimeStamp :: nat where "TAG_GPSTimeStamp = 0x0007"
definition END_OF_IMAGE :: nat where "END_OF_IMAGE = 0xffd9"
definition VALID_MARKER_PREFIX :: nat where "VALID_MARKER_PREFIX = 0xff00"
definition APP1_MARKER :: nat where "APP1_MARKER = 0xffe1"
definition EXIF_HEADER :: nat where "EXIF_HEADER = 0x45786966"
definition LITTLE_ENDIAN :: nat where "LITTLE_ENDIAN = 0x4949"
definition BIG_ENDIAN :: nat where "BIG_ENDIAN = 0x4d4d"
definition JPEG_START :: nat where "JPEG_START = 0xffd8"

lemmas TAGS_defs =
  TAG_DateTime_def TAG_ExifIFDPointer_def TAG_GPSInfoIFDPointer_def TAG_DateTimeOriginal_def
  TAG_DateTimeDigitized_def TAG_GPSDateStamp_def TAG_GPSTimeStamp_def END_OF_IMAGE_def
  VALID_MARKER_PREFIX_def APP1_MARKER_def EXIF_HEADER_def LITTLE_ENDIAN_def BIG_ENDIAN_def
  JPEG_START_def

section \<open>The segment scan of \<open>parseExifDates\<close>\<close>

text \<open>
  The six bytes at \<open>potential\<close>, read through their own \<open>DataView\<close> when they fit:
  \<open>hdr.getUint32(0) === EXIF_HEADER && hdr.getUint16(4) === 0\<close>.
\<close>

definition exifHeaderAt :: "buffer \<Rightarrow> nat \<Rightarrow> error + bool" where
  "exifHeaderAt b potential =
     (if potential + 6 \<le> length b then
        andThen (subView b potential 6) (\<lambda>hdr.
        andThen (getUint32 hdr 0 False) (\<lambda>h.
          if h = EXIF_HEADER
          then andThen (getUint16 hdr 4 False) (\<lambda>z. Inr (z = 0))
          else Inr False))
      else Inr False)"

lemma andThen_cong [fundef_cong]:
  "r = r' \<Longrightarrow> (\<And>x. r' = Inr x \<Longrightarrow> f x = f' x) \<Longrightarrow> andThen r f = andThen r' f'"
  by (auto simp: andThen_def split: sum.splits)

text \<open>
  The \<open>while\<close> loop. The result \<open>None\<close> is \<open>exifStartOffset === -1\<close> at the loop's exit,
  \<open>Some e\<close> is the offset right after the \<open>Exif\0\0\<close> header.
\<close>

function scanSegments :: "buffer \<Rightarrow> nat \<Rightarrow> error + nat option" where
  "scanSegments b offset =
     (if \<not> offset < length b then Inr None
      else if offset + 4 > length b then Inr None
      else
        andThen (getUint16 b offset False) (\<lambda>marker.
          if marker = END_OF_IMAGE then Inr None
          else if marker AND VALID_MARKER_PREFIX \<noteq> VALID_MARKER_PREFIX then Inr None
          else
            andThen (getUint16 b (offset + 2) False) (\<lambda>segLen.
            andThen (if marker = APP1_MARKER then exifHeaderAt b (offset + 2 + 2) else Inr False)
              (\<lambda>found.
                if found then Inr (Some (offset + 2 + 2 + 6))
                else scanSegments b (offset + 2 + segLen)))))"
  by pat_completeness auto
termination
  by (relation "measure (\<lambda>(b, offset). length b - offset)") auto

declare scanSegments.simps [simp del]

definition locateExif :: "buffer \<Rightarrow> error + nat" where
  "locateExif b =
     andThen (getUint16 b 0 False) (\<lambda>soi.
       if soi \<noteq> JPEG_START then Inl NotAJpeg
       else
         andThen (scanSegments b 2) (\<lambda>exifStartOffset.
           case exifStartOffset of
             None \<Rightarrow> Inl NoExifApp1
           | Some e \<Rightarrow> Inr e))"

section \<open>Directory entries and fields\<close>

text \<open>
  \<open>value: number | string | number[]\<close>. A number that the reader produces is the quotient of
  two unsigned 32-bit integers (or such an integer itself); it is kept as an exact rational.
  A string that the reader produces has one character per byte (\<open>String.fromCharCode\<close>).
\<close>

datatype val = VNum rat | VStr string | VArr "rat list"

record IDF =
  idf_type :: nat
  idf_count :: nat
  idf_value :: val
  idf_valueOffset :: nat
  idf_tag :: nat

datatype fieldType = TDate | TDateTime | TTime

record EXIFField =
  label :: string
  name :: string
  ifd :: string
  tag :: nat
  count :: nat
  valueOffset :: nat
  fvalue :: val
  ftype :: fieldType

record IFD =
  entries :: "nat \<rightharpoonup> IDF"
  nextIFD :: nat

section \<open>\<open>readIFD\<close>\<close>

text \<open>The string loop: bytes from \<open>p\<close> until a NUL byte or \<open>n\<close> bytes, whichever first.\<close>

fun readAscii :: "buffer \<Rightarrow> nat \<Rightarrow> nat \<Rightarrow> error + string" where
  "readAscii b p 0 = Inr []"
| "readAscii b p (Suc n) =
     andThen (getUint8 b p) (\<lambda>c.
       if c = 0 then Inr []
       else andThen (readAscii b (p + 1) n) (\<lambda>s. Inr (char_of c # s)))"

text \<open>The rational loop: \<open>n\<close> pairs of unsigned 32-bit words from \<open>p\<close>.\<close>

fun readRationals :: "buffer \<Rightarrow> bool \<Rightarrow> nat \<Rightarrow> nat \<Rightarrow> error + (nat \<times> nat) list" where
  "readRationals b littleEndian p 0 = Inr []"
| "readRationals b littleEndian p (Suc n) =
     andThen (getUint32 b p littleEndian) (\<lambda>num.
     andThen (getUint32 b (p + 4) littleEndian) (\<lambda>denom.
     andThen (readRationals b littleEndian (p + 8) n) (\<lambda>rs. Inr ((num, denom) # rs))))"

definition quotient :: "nat \<times> nat \<Rightarrow> rat" where
  "quotient r = (case r of (numerator, denominator) \<Rightarrow>
     if denominator \<noteq> 0 then of_nat numerator / of_nat denominator else 0)"

definition rationalValue :: "nat \<Rightarrow> (nat \<times> nat) list \<Rightarrow> val" where
  "rationalValue cnt rationals =
     (if cnt = 1 then VNum (quotient (hd rationals)) else VArr (map quotient rationals))"

text \<open>One 12-byte entry at \<open>entryPtr\<close>; \<open>tiffStartOffset\<close> is the base of every offset.\<close>

definition readEntry :: "buffer \<Rightarrow> nat \<Rightarrow> bool \<Rightarrow> nat \<Rightarrow> error + IDF" where
  "readEntry b tiffStartOffset littleEndian entryPtr =
     andThen (getUint16 b entryPtr littleEndian) (\<lambda>tg.
     andThen (getUint16 b (entryPtr + 2) littleEndian) (\<lambda>ty.
     andThen (getUint32 b (entryPtr + 4) littleEndian) (\<lambda>cnt.
       let valueOrOffset = entryPtr + 8 in
       if ty = 2 then
         andThen (if cnt \<le> 4 then Inr valueOrOffset
                  else andThen (getUint32 b valueOrOffset littleEndian)
                         (\<lambda>off. Inr (tiffStartOffset + off)))
           (\<lambda>valueOffsetAbsolute.
         andThen (readAscii b valueOffsetAbsolute cnt) (\<lambda>s.
           Inr \<lparr>idf_type = ty, idf_count = cnt, idf_value = VStr s,
                idf_valueOffset = valueOffsetAbsolute, idf_tag = tg\<rparr>))
       else if ty = 5 then
         andThen (getUint32 b valueOrOffset littleEndian) (\<lambda>off.
           let valueOffsetAbsolute = tiffStartOffset + off in
           andThen (readRationals b littleEndian valueOffsetAbsolute cnt) (\<lambda>rationals.
             Inr \<lparr>idf_type = ty, idf_count = cnt, idf_value = rationalValue cnt rationals,
                  idf_valueOffset = valueOffsetAbsolute, idf_tag = tg\<rparr>))
       else if (ty = 4 \<or> ty = 3) \<and> (tg = TAG_ExifIFDPointer \<or> tg = TAG_GPSInfoIFDPointer) then
         andThen (getUint32 b valueOrOffset littleEndian) (\<lambda>off.
           Inr \<lparr>idf_type = ty, idf_count = cnt, idf_value = VNum (of_nat off),
                idf_valueOffset = valueOrOffset, idf_tag = tg\<rparr>)
       else
         Inr \<lparr>idf_type = ty, idf_count = cnt, idf_value = VNum 0,
              idf_valueOffset = valueOrOffset, idf_tag = tg\<rparr>)))"

text \<open>The \<open>for\<close> loop over the entries; \<open>entries.set\<close> overwrites an earlier entry of the tag.\<close>

fun readEntries ::
  "buffer \<Rightarrow> nat \<Rightarrow> bool \<Rightarrow> nat \<Rightarrow> nat \<Rightarrow> (nat \<rightharpoonup> IDF) \<Rightarrow> error + (nat \<times> (nat \<rightharpoonup> IDF))" where
  "readEntries b tiffStartOffset littleEndian 0 entryPtr es = Inr (entryPtr, es)"
| "readEntries b tiffStartOffset littleEndian (Suc n) entryPtr es =
     andThen (readEntry b tiffStartOffset littleEndian entryPtr) (\<lambda>e.
       readEntries b tiffStartOffset littleEndian n (entryPtr + 12) (es(idf_tag e \<mapsto> e)))"

definition readIFD :: "buffer \<Rightarrow> nat \<Rightarrow> bool \<Rightarrow> nat \<Rightarrow> error + IFD" where
  "readIFD b tiffStartOffset littleEndian ifdAt =
     andThen (getUint16 b ifdAt littleEndian) (\<lambda>num.
     andThen (readEntries b tiffStartOffset littleEndian num (ifdAt + 2) Map.empty) (\<lambda>r.
       case r of (entryPtr, es) \<Rightarrow>
         andThen (getUint32 b entryPtr littleEndian) (\<lambda>nxt.
           Inr \<lparr>entries = es, nextIFD = nxt\<rparr>)))"

section \<open>\<open>parseExifDates\<close>\<close>

text \<open>
  \<open>tiffStartOffset + (entry.value as number)\<close>. The entry of a pointer tag holds a number that
  is a natural number when its type is SHORT or LONG (the 32-bit slot), any type other than
  ASCII and RATIONAL (the number 0), or a RATIONAL with one pair and an integral quotient.
  Otherwise the value is a string, an array or a fraction and the addition of the source
  leaves the integers (string concatenation, or a fractional offset): the model stops there
  with \<open>NonIntegerOffset\<close>, which stands for no behaviour of the source.
\<close>

definition pointerOffset :: "nat \<Rightarrow> val \<Rightarrow> error + nat" where
  "pointerOffset tiffStartOffset v =
     (case v of
        VNum q \<Rightarrow> (if 0 \<le> q \<and> of_int \<lfloor>q\<rfloor> = q then Inr (tiffStartOffset + nat \<lfloor>q\<rfloor>)
                   else Inl NonIntegerOffset)
      | VStr s \<Rightarrow> Inl NonIntegerOffset
      | VArr xs \<Rightarrow> Inl NonIntegerOffset)"

definition mkField :: "string \<Rightarrow> string \<Rightarrow> string \<Rightarrow> nat \<Rightarrow> fieldType \<Rightarrow> IDF \<Rightarrow> EXIFField" where
  "mkField lbl nm dir tg ty entry =
     \<lparr>label = lbl, name = nm, ifd = dir, tag = tg, count = idf_count entry,
      valueOffset = idf_valueOffset entry, fvalue = idf_value entry, ftype = ty\<rparr>"

text \<open>\<open>if (dir.entries.get(tg)) results.push({...})\<close>\<close>

definition pushIfPresent ::
  "IFD \<Rightarrow> string \<Rightarrow> string \<Rightarrow> string \<Rightarrow> nat \<Rightarrow> fieldType \<Rightarrow> EXIFField list \<Rightarrow> EXIFField list" where
  "pushIfPresent dir lbl nm dirName tg ty results =
     (case entries dir tg of
        Some entry \<Rightarrow> results @ [mkField lbl nm dirName tg ty entry]
      | None \<Rightarrow> results)"

text \<open>The byte-order mark, the magic number and the offset of the first directory.\<close>

definition readTiffHeader :: "buffer \<Rightarrow> nat \<Rightarrow> error + (bool \<times> nat)" where
  "readTiffHeader b tiffStartOffset =
     andThen (subView b tiffStartOffset 2) (\<lambda>byteOrder.
     andThen (getUint16 byteOrder 0 False) (\<lambda>bo.
     andThen (if bo = LITTLE_ENDIAN then Inr True
              else if bo \<noteq> BIG_ENDIAN then Inl InvalidByteOrder
              else Inr False) (\<lambda>littleEndian.
     andThen (subView b (tiffStartOffset + 2) 2) (\<lambda>fortyTwo.
     andThen (getUint16 fortyTwo 0 False) (\<lambda>magic.
       if magic \<noteq> 42 then Inl InvalidTiffHeader
       else
         andThen (subView b (tiffStartOffset + 4) 4) (\<lambda>firstIFDOffsetView.
         andThen (getUint32 firstIFDOffsetView 0 False) (\<lambda>off.
           Inr (littleEndian, off + tiffStartOffset))))))))"

text \<open>The sub-directory behind a pointer tag of the 0th directory, when the tag is there.\<close>

definition subIFD :: "buffer \<Rightarrow> nat \<Rightarrow> bool \<Rightarrow> IFD \<Rightarrow> nat \<Rightarrow> error + IFD option" where
  "subIFD b tiffStartOffset littleEndian ifd0 pointerTag =
     (case entries ifd0 pointerTag of
        None \<Rightarrow> Inr None
      | Some entry \<Rightarrow>
          andThen (pointerOffset tiffStartOffset (idf_value entry)) (\<lambda>ifdAt.
            if ifdAt \<noteq> 0
            then andThen (readIFD b tiffStartOffset littleEndian ifdAt) (\<lambda>d. Inr (Some d))
            else Inr None))"

definition exifFields :: "IFD option \<Rightarrow> EXIFField list \<Rightarrow> EXIFField list" where
  "exifFields d results =
     (case d of
        None \<Rightarrow> results
      | Some exifIFD \<Rightarrow>
          pushIfPresent exifIFD ''DateTimeDigitized (Exif IFD)'' ''DateTimeDigitized'' ''Exif''
            TAG_DateTimeDigitized TDateTime
            (pushIfPresent exifIFD ''DateTimeOriginal (Exif IFD)'' ''DateTimeOriginal'' ''Exif''
               TAG_DateTimeOriginal TDateTime results))"

definition gpsFields :: "IFD option \<Rightarrow> EXIFField list \<Rightarrow> EXIFField list" where
  "gpsFields d results =
     (case d of
        None \<Rightarrow> results
      | Some gpsIFD \<Rightarrow>
          pushIfPresent gpsIFD ''GPSTimeStamp (GPS IFD)'' ''GPSTimeStamp'' ''GPS''
            TAG_GPSTimeStamp TTime
            (pushIfPresent gpsIFD ''GPSDateStamp (GPS IFD)'' ''GPSDateStamp'' ''GPS''
               TAG_GPSDateStamp TDate results))"

definition parseExifDates :: "buffer \<Rightarrow> error + EXIFField list" where
  "parseExifDates b =
     andThen (locateExif b) (\<lambda>tiffStartOffset.
     andThen (readTiffHeader b tiffStartOffset) (\<lambda>hdr.
       case hdr of (littleEndian, firstIFDOffset) \<Rightarrow>
         andThen (readIFD b tiffStartOffset littleEndian firstIFDOffset) (\<lambda>ifd0.
           let results =
                 pushIfPresent ifd0 ''Image DateTime (0th IFD)'' ''DateTime'' ''0th''
                   TAG_DateTime TDateTime []
           in
           andThen (subIFD b tiffStartOffset littleEndian ifd0 TAG_ExifIFDPointer) (\<lambda>exifIFD.
           andThen (subIFD b tiffStartOffset littleEndian ifd0 TAG_GPSInfoIFDPointer) (\<lambda>gpsIFD.
             Inr (gpsFields gpsIFD (exifFields exifIFD results)))))))"

section \<open>What the scan finds, stated on the bytes\<close>

text \<open>
  An APP1 segment that carries the literal \<open>Exif\0\0\<close>: the marker \<open>FF E1\<close> at \<open>off\<close>, two
  length bytes, and the six bytes of the literal, all inside the buffer.
\<close>

definition exifApp1At :: "buffer \<Rightarrow> nat \<Rightarrow> bool" where
  "exifApp1At b off \<longleftrightarrow>
     off + 10 \<le> length b \<and> b ! off = 0xFF \<and> b ! (off + 1) = 0xE1 \<and>
     take 6 (drop (off + 4) b) = [0x45, 0x78, 0x69, 0x66, 0, 0]"

text \<open>
  The positions the scan visits: it starts behind the start-of-image marker and moves on by
  the declared segment length as long as four more bytes are there, the byte pair is a
  marker (high byte \<open>FF\<close>) other than end-of-image, and the segment is not the one looked for.
\<close>

inductive scanReaches :: "buffer \<Rightarrow> nat \<Rightarrow> bool" for b :: buffer where
  start: "scanReaches b 2"
| step: "scanReaches b off \<Longrightarrow> off + 4 \<le> length b \<Longrightarrow> b ! off = 0xFF \<Longrightarrow> b ! (off + 1) \<noteq> 0xD9 \<Longrightarrow>
         \<not> exifApp1At b off \<Longrightarrow>
         scanReaches b (off + 2 + (256 * unat (b ! (off + 2)) + unat (b ! (off + 3))))"

section \<open>Byte arithmetic\<close>

lemma and_shifted_mask: "(x::nat) AND push_bit n (mask k) = push_bit n (take_bit k (drop_bit n x))"
  by (rule bit_eqI) (auto simp: bit_simps)

lemma and_ff00: "(x::nat) AND 0xff00 = 256 * (x div 256 mod 256)"
  using and_shifted_mask [of x 8 8]
  by (simp add: push_bit_eq_mult mask_eq_exp_minus_1 take_bit_eq_mod drop_bit_eq_div)

lemma unat_byte_lt: "unat (x :: byte) < 256"
  using unsigned_less [of x, where ?'a = nat] by simp

lemma unat_byte_eq: "(unat (x :: byte) = unat (y :: byte)) = (x = y)"
  by (simp add: word_unat_eq_iff)

lemma u16_const:
  "b < 256 \<Longrightarrow> d < 256 \<Longrightarrow>
   (256 * a + b = 256 * c + (d::nat)) = (a = c \<and> b = d)"
proof
  assume bd: "b < 256" "d < 256" and e: "256 * a + b = 256 * c + d"
  from e have "(256 * a + b) div 256 = (256 * c + d) div 256"
    "(256 * a + b) mod 256 = (256 * c + d) mod 256"
    by simp_all
  with bd show "a = c \<and> b = d" by simp
qed simp

lemma u32_const:
  assumes "b < 256" "c < 256" "d < 256" "b' < 256" "c' < 256" "d' < 256"
  shows "(16777216 * a + 65536 * b + 256 * c + d = 16777216 * a' + 65536 * b' + 256 * c' + (d'::nat))
     = (a = a' \<and> b = b' \<and> c = c' \<and> d = d')"
proof -
  have "(16777216 * a + 65536 * b + 256 * c + d = 16777216 * a' + 65536 * b' + 256 * c' + d')
      = (256 * (256 * (256 * a + b) + c) + d = 256 * (256 * (256 * a' + b') + c') + d')"
    by simp
  also have "\<dots> = (256 * (256 * a + b) + c = 256 * (256 * a' + b') + c' \<and> d = d')"
    using assms by (rule_tac u16_const)
  also have "\<dots> = ((256 * a + b = 256 * a' + b' \<and> c = c') \<and> d = d')"
    using assms by (simp only: u16_const)
  also have "\<dots> = (((a = a' \<and> b = b') \<and> c = c') \<and> d = d')"
    using assms by (simp only: u16_const)
  finally show ?thesis by (simp only: conj_assoc)
qed

lemma u32_exif:
  "a < 256 \<Longrightarrow> b < 256 \<Longrightarrow> c < 256 \<Longrightarrow> d < 256 \<Longrightarrow>
   (16777216 * a + 65536 * b + 256 * c + d = (0x45786966::nat))
     = (a = 0x45 \<and> b = 0x78 \<and> c = 0x69 \<and> d = 0x66)"
  using u32_const [of b c d "0x78" "0x69" "0x66" a "0x45"] by simp

lemma hi_byte: "b < 256 \<Longrightarrow> a < 256 \<Longrightarrow> ((256 * a + b) AND (0xff00::nat) = 0xff00) = (a = 255)"
  by (simp add: and_ff00)

lemma marker_prefix:
  "(256 * unat (x::byte) + unat (y::byte) AND VALID_MARKER_PREFIX = VALID_MARKER_PREFIX) = (x = 0xFF)"
proof -
  have "(unat x = 255) = (x = 0xFF)"
    using unat_byte_eq [of x "0xFF"] by simp
  then show ?thesis
    unfolding VALID_MARKER_PREFIX_def
    using hi_byte [OF unat_byte_lt [of y] unat_byte_lt [of x]] by blast
qed

lemma marker_eoi:
  "(256 * unat (x::byte) + unat (y::byte) = END_OF_IMAGE) = (x = 0xFF \<and> y = 0xD9)"
proof -
  have "(unat x = 255) = (x = 0xFF)" "(unat y = 217) = (y = 0xD9)"
    using unat_byte_eq [of x "0xFF"] unat_byte_eq [of y "0xD9"] by simp_all
  then show ?thesis
    unfolding END_OF_IMAGE_def
    using u16_const [OF unat_byte_lt [of y], of 217 "unat x" 255] by simp
qed

lemma marker_app1:
  "(256 * unat (x::byte) + unat (y::byte) = APP1_MARKER) = (x = 0xFF \<and> y = 0xE1)"
proof -
  have "(unat x = 255) = (x = 0xFF)" "(unat y = 225) = (y = 0xE1)"
    using unat_byte_eq [of x "0xFF"] unat_byte_eq [of y "0xE1"] by simp_all
  then show ?thesis
    unfolding APP1_MARKER_def
    using u16_const [OF unat_byte_lt [of y], of 225 "unat x" 255] by simp
qed

lemma marker_soi:
  "(256 * unat (x::byte) + unat (y::byte) = JPEG_START) = (x = 0xFF \<and> y = 0xD8)"
proof -
  have "(unat x = 255) = (x = 0xFF)" "(unat y = 216) = (y = 0xD8)"
    using unat_byte_eq [of x "0xFF"] unat_byte_eq [of y "0xD8"] by simp_all
  then show ?thesis
    unfolding JPEG_START_def
    using u16_const [OF unat_byte_lt [of y], of 216 "unat x" 255] by simp
qed


lemma unat_byte_0: "(unat (x::byte) = 0) = (x = 0)"
  by (simp add: unat_eq_zero)

lemma len6: "length (xs::'a list) = 6 \<Longrightarrow> \<exists>a b c d e f. xs = [a, b, c, d, e, f]"
  by (simp add: numeral_eq_Suc length_Suc_conv) blast

lemma exif_literal:
  "(getUint32 [a, b, c, d, e, f] 0 False = Inr EXIF_HEADER \<and> getUint16 [a, b, c, d, e, f] 4 False = Inr 0)
   = ([a, b, c, d, e, f] = [0x45, 0x78, 0x69, 0x66, 0, 0::byte])"
proof -
  have "(unat a = 0x45) = (a = 0x45)" "(unat b = 0x78) = (b = 0x78)"
       "(unat c = 0x69) = (c = 0x69)" "(unat d = 0x66) = (d = 0x66)"
    using unat_byte_eq [of a "0x45"] unat_byte_eq [of b "0x78"]
          unat_byte_eq [of c "0x69"] unat_byte_eq [of d "0x66"] by simp_all
  then show ?thesis
    using u32_exif [OF unat_byte_lt [of a] unat_byte_lt [of b] unat_byte_lt [of c] unat_byte_lt [of d]]
    by (simp add: getUint32_def getUint16_def EXIF_HEADER_def unat_byte_0)
qed

section \<open>The scan, one step at a time\<close>

lemma exifHeaderAt_eq:
  "exifHeaderAt b p =
     Inr (p + 6 \<le> length b \<and> take 6 (drop p b) = [0x45, 0x78, 0x69, 0x66, 0, 0])"
proof (cases "p + 6 \<le> length b")
  case False
  then show ?thesis by (simp add: exifHeaderAt_def)
next
  case True
  then have "length (take 6 (drop p b)) = 6" by simp
  then obtain a c d e f g where h: "take 6 (drop p b) = [a, c, d, e, f, g]"
    using len6 by blast
  have "exifHeaderAt b p =
     Inr (getUint32 [a, c, d, e, f, g] 0 False = Inr EXIF_HEADER \<and> getUint16 [a, c, d, e, f, g] 4 False = Inr 0)"
    using True by (simp add: exifHeaderAt_def subView_def h andThen_def getUint32_def getUint16_def)
  then show ?thesis
    using True by (simp only: exif_literal h simp_thms)
qed

lemma scan_short: "length b < offset + 4 \<Longrightarrow> scanSegments b offset = Inr None"
  by (subst scanSegments.simps) simp

lemma andThen_Inr [simp]: "andThen (Inr x) f = f x"
  by (simp add: andThen_def)

lemma andThen_Inl [simp]: "andThen (Inl e) f = Inl e"
  by (simp add: andThen_def)

lemma scan_cases:
  "(if x = (0xFF::byte) \<and> y = (0xD9::byte) then Inr None
    else if \<not> (x = 0xFF) then Inr None
    else andThen (if x = 0xFF \<and> y = 0xE1 then Inr (A \<and> T) else Inr False)
           (\<lambda>found. if found then Inr (Some k) else r)) =
   (if x = 0xFF \<and> y = 0xD9 then Inr None
    else if x \<noteq> 0xFF then Inr None
    else if A \<and> x = 0xFF \<and> y = 0xE1 \<and> T then Inr (Some k)
    else (r :: error + nat option))"
  by (cases "x = 0xFF"; cases "y = 0xD9"; cases "y = 0xE1"; cases A; cases T; simp)

lemma scan_step:
  assumes "offset + 4 \<le> length b"
  shows "scanSegments b offset =
     (if b ! offset = 0xFF \<and> b ! (offset + 1) = 0xD9 then Inr None
      else if b ! offset \<noteq> 0xFF then Inr None
      else if exifApp1At b offset then Inr (Some (offset + 10))
      else scanSegments b (offset + 2 + (256 * unat (b ! (offset + 2)) + unat (b ! (offset + 3)))))"
proof -
  let ?m = "256 * unat (b ! offset) + unat (b ! (offset + 1))"
  let ?seg = "256 * unat (b ! (offset + 2)) + unat (b ! (offset + 3))"
  have m: "getUint16 b offset False = Inr ?m"
    using assms by (simp add: getUint16_def)
  have e: "offset + 2 + 1 = offset + 3" by simp
  have s: "getUint16 b (offset + 2) False = Inr ?seg"
    unfolding getUint16_def e using assms by simp
  have e4: "offset + 2 + 2 = offset + 4" and e10: "offset + 4 + 6 = offset + 10"
    by simp_all
  have c1: "(\<not> offset < length b) = False" and c2: "(offset + 4 > length b) = False"
    using assms by simp_all
  have "scanSegments b offset =
     (if ?m = END_OF_IMAGE then Inr None
      else if ?m AND VALID_MARKER_PREFIX \<noteq> VALID_MARKER_PREFIX then Inr None
      else andThen (if ?m = APP1_MARKER then exifHeaderAt b (offset + 4) else Inr False)
             (\<lambda>found. if found then Inr (Some (offset + 10))
                       else scanSegments b (offset + 2 + ?seg)))"
    by (subst scanSegments.simps) (simp only: c1 c2 m s andThen_Inr if_False e4 e10)
  then show ?thesis
    unfolding marker_eoi marker_prefix marker_app1 exifHeaderAt_eq exifApp1At_def e10 scan_cases
    by (simp only: conj_ac)
qed

lemma scan_none:
  assumes none: "\<forall>off. scanReaches b off \<longrightarrow> \<not> exifApp1At b off"
  shows "scanReaches b offset \<Longrightarrow> scanSegments b offset = Inr None"
proof (induction offset rule: measure_induct_rule [where f = "\<lambda>off. length b - off"])
  case (less offset)
  show ?case
  proof (cases "offset + 4 \<le> length b")
    case False
    then show ?thesis by (simp add: scan_short)
  next
    case True
    let ?next = "offset + 2 + (256 * unat (b ! (offset + 2)) + unat (b ! (offset + 3)))"
    have noexif: "\<not> exifApp1At b offset" using none less.prems by blast
    show ?thesis
    proof (cases "b ! offset = 0xFF \<and> b ! (offset + 1) \<noteq> 0xD9")
      case False
      then show ?thesis using True by (auto simp: scan_step)
    next
      case go: True
      then have "scanReaches b ?next"
        using scanReaches.step [OF less.prems True] noexif by blast
      moreover have "length b - ?next < length b - offset" using True by simp
      ultimately have "scanSegments b ?next = Inr None" using less.IH by blast
      then show ?thesis using True go noexif by (simp add: scan_step)
    qed
  qed
qed


lemma scan_no_error: "scanSegments b offset \<noteq> Inl e"
proof (induction offset rule: measure_induct_rule [where f = "\<lambda>off. length b - off"])
  case (less offset)
  show ?case
  proof (cases "offset + 4 \<le> length b")
    case False
    then show ?thesis by (simp add: scan_short)
  next
    case True
    let ?next = "offset + 2 + (256 * unat (b ! (offset + 2)) + unat (b ! (offset + 3)))"
    have "length b - ?next < length b - offset" using True by simp
    then have "scanSegments b ?next \<noteq> Inl e" using less.IH by blast
    then show ?thesis using True by (simp add: scan_step)
  qed
qed

lemma soi_read:
  "2 \<le> length b \<Longrightarrow> getUint16 b 0 False = Inr (256 * unat (b ! 0) + unat (b ! 1))"
  by (simp add: getUint16_def)

lemma upto6: "(off::nat) + 10 \<le> 16 \<Longrightarrow> off = 0 \<or> off = 1 \<or> off = 2 \<or> off = 3 \<or> off = 4 \<or> off = 5 \<or> off = 6"
  by arith

section \<open>Claims about the scanner\<close>

text \<open>
  C7. A buffer whose first two bytes are not \<open>FF D8\<close> makes \<open>parseExifDates\<close> throw
  \<open>Not a JPEG\<close> (the specification's \<open>FormatError\<close>). A buffer that starts with \<open>FF D8\<close>
  and in which the scan reaches no APP1 segment with the \<open>Exif\0\0\<close> literal before it stops
  (end-of-image marker, a byte pair whose high byte is not \<open>FF\<close>, fewer than four bytes left)
  makes it throw \<open>No EXIF APP1 segment found\<close> (\<open>SegmentError\<close>). A buffer of fewer than two
  bytes has no first two bytes; there \<open>getUint16(0)\<close> raises a \<open>RangeError\<close>.
\<close>

theorem scanner_rejects:
  "(2 \<le> length b \<and> (b ! 0 \<noteq> 0xFF \<or> b ! 1 \<noteq> 0xD8) \<longrightarrow>
      parseExifDates b = Inl NotAJpeg \<and> failureOf NotAJpeg = Some FormatError) \<and>
   (2 \<le> length b \<and> b ! 0 = 0xFF \<and> b ! 1 = 0xD8 \<and>
      (\<forall>off. scanReaches b off \<longrightarrow> \<not> exifApp1At b off) \<longrightarrow>
      parseExifDates b = Inl NoExifApp1 \<and> failureOf NoExifApp1 = Some SegmentError)"
proof (intro conjI impI)
  assume a: "2 \<le> length b \<and> (b ! 0 \<noteq> 0xFF \<or> b ! 1 \<noteq> 0xD8)"
  then have "256 * unat (b ! 0) + unat (b ! 1) \<noteq> JPEG_START"
    by (simp only: marker_soi) blast
  then show "parseExifDates b = Inl NotAJpeg"
    using a by (simp add: parseExifDates_def locateExif_def soi_read)
next
  assume a: "2 \<le> length b \<and> b ! 0 = 0xFF \<and> b ! 1 = 0xD8 \<and>
      (\<forall>off. scanReaches b off \<longrightarrow> \<not> exifApp1At b off)"
  then have "256 * unat (b ! 0) + unat (b ! 1) = JPEG_START"
    by (simp only: marker_soi)
  moreover have "scanSegments b 2 = Inr None"
    using a scan_none [OF _ scanReaches.start] by blast
  ultimately show "parseExifDates b = Inl NoExifApp1"
    using a by (simp add: parseExifDates_def locateExif_def soi_read)
qed simp_all

theorem scanner_rejects_witness:
  "parseExifDates [0x89, 0x50, 0x4E, 0x47] = Inl NotAJpeg \<and>
   parseExifDates [0xFF, 0xD8, 0xFF, 0xE1, 0x00, 0x08, 0x68, 0x74, 0x74, 0x70, 0x3A, 0x2F,
                   0xFF, 0xD9, 0x00, 0x00] = Inl NoExifApp1"
proof -
  let ?png = "[0x89, 0x50, 0x4E, 0x47] :: buffer"
  let ?xmp = "[0xFF, 0xD8, 0xFF, 0xE1, 0x00, 0x08, 0x68, 0x74, 0x74, 0x70, 0x3A, 0x2F,
               0xFF, 0xD9, 0x00, 0x00] :: buffer"
  have 1: "2 \<le> length ?png \<and> (?png ! 0 \<noteq> 0xFF \<or> ?png ! 1 \<noteq> 0xD8)" by simp
  have "\<not> exifApp1At ?xmp off" for off
  proof
    assume e: "exifApp1At ?xmp off"
    then have "off + 10 \<le> 16" by (simp add: exifApp1At_def)
    then have "off = 0 \<or> off = 1 \<or> off = 2 \<or> off = 3 \<or> off = 4 \<or> off = 5 \<or> off = 6"
      by (rule upto6)
    then show False using e by (elim disjE) (simp_all add: exifApp1At_def)
  qed
  then have 2: "2 \<le> length ?xmp \<and> ?xmp ! 0 = 0xFF \<and> ?xmp ! 1 = 0xD8 \<and>
      (\<forall>off. scanReaches ?xmp off \<longrightarrow> \<not> exifApp1At ?xmp off)" by simp
  show ?thesis
    using scanner_rejects [of ?png] scanner_rejects [of ?xmp] 1 2 by blast
qed


section \<open>The TIFF header\<close>

lemma marker_le: "(256 * unat (x::byte) + unat (y::byte) = LITTLE_ENDIAN) = (x = 0x49 \<and> y = 0x49)"
proof -
  have "(unat x = 73) = (x = 0x49)" "(unat y = 73) = (y = 0x49)"
    using unat_byte_eq [of x "0x49"] unat_byte_eq [of y "0x49"] by simp_all
  then show ?thesis
    unfolding LITTLE_ENDIAN_def
    using u16_const [OF unat_byte_lt [of y], of 73 "unat x" 73] by simp
qed

lemma marker_be: "(256 * unat (x::byte) + unat (y::byte) = BIG_ENDIAN) = (x = 0x4D \<and> y = 0x4D)"
proof -
  have "(unat x = 77) = (x = 0x4D)" "(unat y = 77) = (y = 0x4D)"
    using unat_byte_eq [of x "0x4D"] unat_byte_eq [of y "0x4D"] by simp_all
  then show ?thesis
    unfolding BIG_ENDIAN_def
    using u16_const [OF unat_byte_lt [of y], of 77 "unat x" 77] by simp
qed

lemma magic_42: "(256 * unat (x::byte) + unat (y::byte) = 42) = (x = 0 \<and> y = 0x2A)"
proof -
  have "(unat x = 0) = (x = 0)" "(unat y = 42) = (y = 0x2A)"
    using unat_byte_eq [of x 0] unat_byte_eq [of y "0x2A"] by simp_all
  then show ?thesis
    using u16_const [OF unat_byte_lt [of y], of 42 "unat x" 0] by simp
qed

lemma getUint16_view:
  "off + 2 \<le> length b \<Longrightarrow> getUint16 (take 2 (drop off b)) 0 False = getUint16 b off False"
  by (simp add: getUint16_def)

lemma getUint32_view:
  "off + 4 \<le> length b \<Longrightarrow> getUint32 (take 4 (drop off b)) 0 False = getUint32 b off False"
  by (simp add: getUint32_def)

lemma getUint16_be:
  "off + 2 \<le> length b \<Longrightarrow>
   getUint16 b off False = Inr (256 * unat (b ! off) + unat (b ! (off + 1)))"
  by (simp add: getUint16_def)

text \<open>The header checks, on the bytes.\<close>

lemma readTiffHeader_bytes:
  assumes "t + 4 \<le> length b"
  shows "readTiffHeader b t =
    (if \<not> (b ! t = 0x49 \<and> b ! (t + 1) = 0x49) \<and> \<not> (b ! t = 0x4D \<and> b ! (t + 1) = 0x4D)
     then Inl InvalidByteOrder
     else if \<not> (b ! (t + 2) = 0 \<and> b ! (t + 3) = 0x2A) then Inl InvalidTiffHeader
     else andThen (getUint32 b (t + 4) False)
            (\<lambda>off. Inr (b ! t = 0x49 \<and> b ! (t + 1) = 0x49, off + t)))"
proof -
  have e: "t + 2 + 1 = t + 3" by simp
  have a: "subView b t 2 = Inr (take 2 (drop t b))"
    "subView b (t + 2) 2 = Inr (take 2 (drop (t + 2) b))"
    using assms by (simp_all add: subView_def)
  have b16: "getUint16 (take 2 (drop t b)) 0 False = Inr (256 * unat (b ! t) + unat (b ! (t + 1)))"
    using assms by (simp add: getUint16_view getUint16_be)
  have m16: "getUint16 (take 2 (drop (t + 2) b)) 0 False
      = Inr (256 * unat (b ! (t + 2)) + unat (b ! (t + 3)))"
  proof -
    have p: "t + 2 + 2 \<le> length b" using assms by simp
    show ?thesis
      by (simp only: getUint16_view [OF p] getUint16_be [OF p, unfolded e])
  qed
  have o32: "andThen (subView b (t + 4) 4) (\<lambda>v. andThen (getUint32 v 0 False) f)
      = andThen (getUint32 b (t + 4) False) f" for f :: "nat \<Rightarrow> error + (bool \<times> nat)"
  proof (cases "t + 4 + 4 \<le> length b")
    case True
    then show ?thesis by (simp add: subView_def getUint32_view)
  next
    case False
    then show ?thesis by (simp add: subView_def getUint32_def)
  qed
  show ?thesis
    unfolding readTiffHeader_def a b16 m16 o32 andThen_Inr marker_le marker_be magic_42
    by auto
qed

text \<open>Unfolding everything, for the evaluation of the reader on a concrete buffer.\<close>

lemmas eval_defs = parseExifDates_def locateExif_def scanSegments.simps exifHeaderAt_def
  readTiffHeader_def readIFD_def readEntry_def subIFD_def pointerOffset_def
  gpsFields_def exifFields_def pushIfPresent_def mkField_def
  getUint8_def getUint16_def getUint32_def subView_def TAGS_defs rationalValue_def quotient_def

section \<open>Claims about the TIFF header\<close>

text \<open>
  Two buffers with a little-endian byte-order mark \<open>II\<close>. In \<open>hybridHeader\<close> the magic number
  and the offset of the first directory are stored big-endian (\<open>00 2A\<close>, \<open>00 00 00 08\<close>); the
  directory behind them is empty. In \<open>intelHeader\<close> they are stored little-endian
  (\<open>2A 00\<close>, \<open>08 00 00 00\<close>), as every little-endian TIFF file has them.
\<close>

definition hybridHeader :: buffer where
  "hybridHeader = [0xFF, 0xD8, 0xFF, 0xE1, 0x00, 0x00, 0x45, 0x78, 0x69, 0x66, 0x00, 0x00,
                   0x49, 0x49, 0x00, 0x2A, 0x00, 0x00, 0x00, 0x08,
                   0x00, 0x00, 0x00, 0x00, 0x00, 0x00]"

definition intelHeader :: buffer where
  "intelHeader = [0xFF, 0xD8, 0xFF, 0xE1, 0x00, 0x00, 0x45, 0x78, 0x69, 0x66, 0x00, 0x00,
                  0x49, 0x49, 0x2A, 0x00, 0x08, 0x00, 0x00, 0x00,
                  0x00, 0x00, 0x00, 0x00, 0x00, 0x00]"

text \<open>
  C2. The byte-order mark is checked as the claim says (\<open>readTiffHeader_bytes\<close>: any pair other
  than \<open>II\<close> and \<open>MM\<close> throws \<open>Invalid TIFF byte order\<close>). The magic number is not read with
  the detected byte order: \<open>fortyTwo.getUint16(0, false)\<close> is big-endian whatever the mark
  says. So a buffer with the mark \<open>II\<close> and the bytes \<open>00 2A\<close>, which are 10752 in little-endian
  order, passes the check and is parsed, and the little-endian header \<open>II 2A 00\<close> is rejected
  with \<open>Invalid TIFF header\<close>.
\<close>

theorem tiff_magic_read_big_endian:
  "parseExifDates hybridHeader = Inr [] \<and>
   parseExifDates intelHeader = Inl InvalidTiffHeader"
  by (simp add: hybridHeader_def intelHeader_def eval_defs)

section \<open>How the reader fails, and what a directory that was read contains\<close>

text \<open>Every failure of \<open>readIFD\<close> is a \<open>RangeError\<close> of a \<open>DataView\<close> accessor.\<close>

definition rangeOnly :: "error + 'a \<Rightarrow> bool" where
  "rangeOnly r \<longleftrightarrow> (\<forall>e. r = Inl e \<longrightarrow> e = RangeError)"


lemma rangeOnly_Inl [simp]: "rangeOnly (Inl e) = (e = RangeError)"
  by (simp add: rangeOnly_def)














section \<open>Evaluation on sample files\<close>

text \<open>
  \<open>sampleJpeg\<close> is a big-endian Exif file of 219 bytes with all five fields: the 0th directory
  (DateTime and the two pointers), the Exif directory (DateTimeOriginal, DateTimeDigitized) and
  the GPS directory, in which the entry of GPSTimeStamp (tag 7) comes before the entry of
  GPSDateStamp (tag 29). \<open>overrunJpeg\<close> has a DateTime entry of 20 bytes whose slot starts on
  the last byte of the buffer, an entry of type UNDEFINED whose offset is \<open>FFFFFFFF\<close>, and
  the same value as the link to the next directory.
\<close>

definition sampleJpeg :: buffer where
  "sampleJpeg =
    [0xFF, 0xD8, 0xFF, 0xE1, 0x00, 0xD5, 0x45, 0x78, 0x69, 0x66, 0x00, 0x00,
     0x4D, 0x4D, 0x00, 0x2A, 0x00, 0x00, 0x00, 0x08, 0x00, 0x03, 0x01, 0x32,
     0x00, 0x02, 0x00, 0x00, 0x00, 0x14, 0x00, 0x00, 0x00, 0x32, 0x87, 0x69,
     0x00, 0x04, 0x00, 0x00, 0x00, 0x01, 0x00, 0x00, 0x00, 0x46, 0x88, 0x25,
     0x00, 0x04, 0x00, 0x00, 0x00, 0x01, 0x00, 0x00, 0x00, 0x8C, 0x00, 0x00,
     0x00, 0x00, 0x32, 0x30, 0x32, 0x34, 0x3A, 0x30, 0x33, 0x3A, 0x31, 0x35,
     0x20, 0x31, 0x34, 0x3A, 0x33, 0x30, 0x3A, 0x34, 0x35, 0x00, 0x00, 0x02,
     0x90, 0x03, 0x00, 0x02, 0x00, 0x00, 0x00, 0x14, 0x00, 0x00, 0x00, 0x64,
     0x90, 0x04, 0x00, 0x02, 0x00, 0x00, 0x00, 0x14, 0x00, 0x00, 0x00, 0x78,
     0x00, 0x00, 0x00, 0x00, 0x32, 0x30, 0x32, 0x34, 0x3A, 0x30, 0x33, 0x3A,
     0x31, 0x35, 0x20, 0x31, 0x34, 0x3A, 0x33, 0x30, 0x3A, 0x34, 0x35, 0x00,
     0x32, 0x30, 0x32, 0x34, 0x3A, 0x30, 0x33, 0x3A, 0x31, 0x35, 0x20, 0x31,
     0x34, 0x3A, 0x33, 0x30, 0x3A, 0x34, 0x35, 0x00, 0x00, 0x02, 0x00, 0x07,
     0x00, 0x05, 0x00, 0x00, 0x00, 0x03, 0x00, 0x00, 0x00, 0xAA, 0x00, 0x1D,
     0x00, 0x02, 0x00, 0x00, 0x00, 0x0B, 0x00, 0x00, 0x00, 0xC2, 0x00, 0x00,
     0x00, 0x00, 0x00, 0x00, 0x00, 0x0C, 0x00, 0x00, 0x00, 0x01, 0x00, 0x00,
     0x00, 0x1E, 0x00, 0x00, 0x00, 0x01, 0x00, 0x00, 0x00, 0x00, 0x00, 0x00,
     0x00, 0x01, 0x32, 0x30, 0x32, 0x34, 0x3A, 0x30, 0x33, 0x3A, 0x31, 0x35,
     0x00, 0xFF, 0xD9]"


definition sampleFields :: "EXIFField list" where
  "sampleFields =
    [\<lparr>label = ''Image DateTime (0th IFD)'', name = ''DateTime'', ifd = ''0th'', tag = 0x0132,
      count = 20, valueOffset = 62, fvalue = VStr ''2024:03:15 14:30:45'', ftype = TDateTime\<rparr>,
     \<lparr>label = ''DateTimeOriginal (Exif IFD)'', name = ''DateTimeOriginal'', ifd = ''Exif'',
      tag = 0x9003, count = 20, valueOffset = 112, fvalue = VStr ''2024:03:15 14:30:45'',
      ftype = TDateTime\<rparr>,
     \<lparr>label = ''DateTimeDigitized (Exif IFD)'', name = ''DateTimeDigitized'', ifd = ''Exif'',
      tag = 0x9004, count = 20, valueOffset = 132, fvalue = VStr ''2024:03:15 14:30:45'',
      ftype = TDateTime\<rparr>,
     \<lparr>label = ''GPSDateStamp (GPS IFD)'', name = ''GPSDateStamp'', ifd = ''GPS'', tag = 0x001d,
      count = 11, valueOffset = 206, fvalue = VStr ''2024:03:15'', ftype = TDate\<rparr>,
     \<lparr>label = ''GPSTimeStamp (GPS IFD)'', name = ''GPSTimeStamp'', ifd = ''GPS'', tag = 0x0007,
      count = 3, valueOffset = 182, fvalue = VArr [12, 30, 0], ftype = TTime\<rparr>]"

lemma readAscii_numeral:
  "readAscii b p (numeral k) =
     andThen (getUint8 b p) (\<lambda>c.
       if c = 0 then Inr []
       else andThen (readAscii b (p + 1) (pred_numeral k)) (\<lambda>s. Inr (char_of c # s)))"
  by (simp add: numeral_eq_Suc)

lemma readRationals_numeral:
  "readRationals b le p (numeral k) =
     andThen (getUint32 b p le) (\<lambda>num.
     andThen (getUint32 b (p + 4) le) (\<lambda>denom.
     andThen (readRationals b le (p + 8) (pred_numeral k)) (\<lambda>rs. Inr ((num, denom) # rs))))"
  by (simp add: numeral_eq_Suc)

lemma readEntries_numeral:
  "readEntries b t le (numeral k) p es =
     andThen (readEntry b t le p) (\<lambda>e.
       readEntries b t le (pred_numeral k) (p + 12) (es(idf_tag e \<mapsto> e)))"
  by (simp add: numeral_eq_Suc)

lemma andThen_weak_cong: "r = r' \<Longrightarrow> andThen r f = andThen r' f"
  by simp

lemmas eval_loops = readAscii_numeral readRationals_numeral readEntries_numeral char_of_def bit_0

lemma sample_parse: "parseExifDates sampleJpeg = Inr sampleFields"
  by (simp add: sampleJpeg_def sampleFields_def eval_defs eval_loops cong: andThen_weak_cong)


section \<open>Loading a file\<close>

text \<open>
  The state of the page and the part of \<open>handleFileList\<close> that fills it:
  \<open>originalBuffer = await readAsArrayBuffer(file)\<close>, \<open>workingBuffer = originalBuffer.slice(0)\<close>,
  and \<open>parsedFields\<close> is the result of \<open>parseExifDates(workingBuffer)\<close>, or \<open>[]\<close> in the
  \<open>catch\<close> branch.
\<close>

record session =
  originalBuffer :: "buffer option"
  workingBuffer :: "buffer option"
  parsedFields :: "EXIFField list"

definition arrayBufferSlice :: "buffer \<Rightarrow> nat \<Rightarrow> buffer" where
  "arrayBufferSlice b begin = drop begin b"

definition handleFileList :: "buffer \<Rightarrow> session" where
  "handleFileList fileBytes =
     (let original = fileBytes;
          working = arrayBufferSlice original 0;
          fields = (case parseExifDates working of Inr fs \<Rightarrow> fs | Inl err \<Rightarrow> [])
      in \<lparr>originalBuffer = Some original, workingBuffer = Some working, parsedFields = fields\<rparr>)"

section \<open>The result of a parse, stated on the directories\<close>














section \<open>Claims about the reader\<close>



text \<open>
  C8. After a load, the working buffer is the original buffer byte for byte, parsing it gives
  what parsing the original gives, and that list is the one the page keeps.
\<close>

theorem reparse_of_working_copy:
  assumes "parseExifDates original = Inr fs"
  shows "\<exists>working.
      workingBuffer (handleFileList original) = Some working \<and>
      originalBuffer (handleFileList original) = Some original \<and>
      working = original \<and>
      parseExifDates working = parseExifDates original \<and>
      parsedFields (handleFileList original) = fs"
  using assms by (simp add: handleFileList_def arrayBufferSlice_def)

theorem reparse_of_working_copy_witness:
  "\<exists>working.
      workingBuffer (handleFileList sampleJpeg) = Some working \<and>
      parseExifDates working = Inr sampleFields \<and>
      parsedFields (handleFileList sampleJpeg) = sampleFields"
  using reparse_of_working_copy [OF sample_parse] sample_parse by auto







section \<open>Writing into the working buffer\<close>

text \<open>
  The setters of \<open>DataView\<close> change the buffer in place or raise a \<open>RangeError\<close>. A write
  returns the buffer as it is afterwards together with the exception, if one was raised: the
  bytes written before an exception stay written.
\<close>

type_synonym written = "buffer \<times> error option"

definition thenW :: "written \<Rightarrow> (buffer \<Rightarrow> written) \<Rightarrow> written" where
  "thenW r f = (case r of (b, None) \<Rightarrow> f b | (b, Some e) \<Rightarrow> (b, Some e))"


definition setUint32 :: "buffer \<Rightarrow> nat \<Rightarrow> nat \<Rightarrow> bool \<Rightarrow> written" where
  "setUint32 b off v littleEndian =
     (if off + 4 \<le> length b then
        (if littleEndian
         then b[off := of_nat v, off + 1 := of_nat (v div 256),
                off + 2 := of_nat (v div 65536), off + 3 := of_nat (v div 16777216)]
         else b[off := of_nat (v div 16777216), off + 1 := of_nat (v div 65536),
                off + 2 := of_nat (v div 256), off + 3 := of_nat v],
         None)
      else (b, Some RangeError))"

text \<open>
  A JavaScript number as far as the patcher meets one: \<open>NaN\<close> or a rational. \<open>ToUint32\<close>
  of the value handed to \<open>setUint32\<close>; \<open>undefined\<close> (an index beyond the array) and \<open>NaN\<close>
  become 0, a fraction is cut off towards zero.
\<close>

datatype jsnum = NaN | Num rat

fun toUint32 :: "jsnum option \<Rightarrow> nat" where
  "toUint32 None = 0"
| "toUint32 (Some NaN) = 0"
| "toUint32 (Some (Num q)) = nat ((if 0 \<le> q then \<lfloor>q\<rfloor> else \<lceil>q\<rceil>) mod 4294967296)"

definition nthOrUndefined :: "'a list \<Rightarrow> nat \<Rightarrow> 'a option" where
  "nthOrUndefined xs i = (if i < length xs then Some (xs ! i) else None)"

section \<open>Typed arrays and the text encoder\<close>





section \<open>The two patches of \<open>downloadModified\<close>\<close>



text \<open>
  The branch \<open>Array.isArray(target)\<close>: \<open>dv.setUint32(absOff, target[i]); dv.setUint32(absOff + 4, 1)\<close>,
  both without a byte-order argument, that is big-endian.
\<close>

fun writeRationals :: "buffer \<Rightarrow> nat \<Rightarrow> jsnum list \<Rightarrow> nat \<Rightarrow> nat \<Rightarrow> written" where
  "writeRationals b vo target i 0 = (b, None)"
| "writeRationals b vo target i (Suc n) =
     thenW (setUint32 b (vo + 8 * i) (toUint32 (nthOrUndefined target i)) False) (\<lambda>b1.
     thenW (setUint32 b1 (vo + 8 * i + 4) 1 False) (\<lambda>b2.
       writeRationals b2 vo target (Suc i) n))"

definition patchTime :: "buffer \<Rightarrow> EXIFField \<Rightarrow> jsnum list \<Rightarrow> written" where
  "patchTime b field target = writeRationals b (valueOffset field) target 0 (count field)"




section \<open>Strings and numbers of the platform\<close>


definition templ :: "string option \<Rightarrow> string" where
  "templ x = (case x of None \<Rightarrow> ''undefined'' | Some s \<Rightarrow> s)"


definition isDigit :: "char \<Rightarrow> bool" where
  "isDigit c \<longleftrightarrow> 48 \<le> (of_char c :: nat) \<and> (of_char c :: nat) \<le> 57"

definition isWhite :: "char \<Rightarrow> bool" where
  "isWhite c \<longleftrightarrow> (of_char c :: nat) \<in> {9, 10, 11, 12, 13, 32, 160}"

definition decVal :: "string \<Rightarrow> nat" where
  "decVal ds = foldl (\<lambda>n c. 10 * n + ((of_char c :: nat) - 48)) 0 ds"

text \<open>
  \<open>parseInt\<close> without a radix, on decimal input: white space, a sign, then the decimal
  digits; \<open>NaN\<close> (here \<open>None\<close>) when there is no digit. The argument \<open>undefined\<close> is the
  string \<open>undefined\<close>. The prefix \<open>0x\<close>, which the platform reads as hexadecimal, does not
  occur in the value of a date input and is read as the digit 0 here.
\<close>

definition parseInt :: "string option \<Rightarrow> int option" where
  "parseInt x =
     (let s = dropWhile isWhite (templ x);
          neg = (s \<noteq> [] \<and> hd s = CHR ''-'');
          body = (if s \<noteq> [] \<and> (hd s = CHR ''-'' \<or> hd s = CHR ''+'') then tl s else s);
          ds = takeWhile isDigit body
      in if ds = [] then None
         else Some (if neg then - int (decVal ds) else int (decVal ds)))"






text \<open>
  The first match of \<open>/(\d{4}):(\d{2}):(\d{2})/\<close> in a string: the three groups.
\<close>

definition matchDateAt :: "string \<Rightarrow> (string \<times> string \<times> string) option" where
  "matchDateAt s =
     (case s of
        y1 # y2 # y3 # y4 # c1 # m1 # m2 # c2 # d1 # d2 # rest \<Rightarrow>
          if list_all isDigit [y1, y2, y3, y4, m1, m2, d1, d2] \<and> c1 = CHR '':'' \<and> c2 = CHR '':''
          then Some ([y1, y2, y3, y4], [m1, m2], [d1, d2])
          else None
      | _ \<Rightarrow> None)"

fun dateMatch :: "string \<Rightarrow> (string \<times> string \<times> string) option" where
  "dateMatch [] = None"
| "dateMatch (c # cs) =
     (case matchDateAt (c # cs) of
        Some groups \<Rightarrow> Some groups
      | None \<Rightarrow> dateMatch cs)"

section \<open>The host's clock and time zone\<close>

text \<open>
  \<open>new Date(year, monthIndex, day, hours, minutes, seconds)\<close> reads its arguments in the
  local time zone of the host; the getters \<open>getUTCFullYear\<close>, \<open>getUTCMonth\<close>, \<open>getUTCDate\<close>,
  \<open>getUTCHours\<close>, \<open>getUTCMinutes\<close>, \<open>getUTCSeconds\<close> give the same instant in UTC. The rules
  of the zone are the platform's, not the program's: they are a parameter. What the language
  fixes is modelled: the arguments are cut to integers, and when one of them is \<open>NaN\<close> the
  date is invalid and every getter returns \<open>NaN\<close> (\<open>None\<close>).
\<close>

record host =
  localToUtc :: "int \<times> int \<times> int \<times> int \<times> int \<times> int
                 \<Rightarrow> (int \<times> int \<times> int \<times> int \<times> int \<times> int) option"
  today :: "int \<times> int \<times> int"




section \<open>From the inputs to the values that are patched\<close>







section \<open>\<open>downloadModified\<close>\<close>




text \<open>
  \<open>downloadModified\<close> on the state of the page: nothing without a working buffer; otherwise
  the working buffer after the patches, and the blob offered for download when no exception
  ended the function before.
\<close>

record saved =
  working :: "buffer option"
  blob :: "buffer option"
  thrown :: "error option"



text \<open>\<open>findCorrespondingDate\<close> of \<open>renderFields\<close>.\<close>

definition stringValue :: "EXIFField option \<Rightarrow> string option" where
  "stringValue f =
     (case f of
        None \<Rightarrow> None
      | Some g \<Rightarrow> (case fvalue g of VStr s \<Rightarrow> Some s | _ \<Rightarrow> None))"

definition findCorrespondingDate :: "EXIFField list \<Rightarrow> EXIFField \<Rightarrow> string option" where
  "findCorrespondingDate flds timeField =
     (case (if ifd timeField = ''GPS'' \<and> name timeField = ''GPSTimeStamp''
            then stringValue (find (\<lambda>f. name f = ''GPSDateStamp'' \<and> ifd f = ''GPS'') flds)
            else None) of
        Some s \<Rightarrow> Some s
      | None \<Rightarrow>
          (case stringValue (find (\<lambda>f. ftype f = TDateTime \<and> ifd f = ifd timeField) flds) of
             Some s \<Rightarrow> Some s
           | None \<Rightarrow> stringValue (find (\<lambda>f. ftype f = TDateTime) flds)))"

text \<open>
  The date the time branch of \<open>renderFields\<close> hands to \<open>Date.UTC\<close> (year, month index, day):
  from the corresponding date when there is one and it is not the empty string, otherwise
  from \<open>new Date()\<close>. With a corresponding date that the pattern does not match, no instant
  is built and the input stays empty.
\<close>

definition displayDate ::
  "host \<Rightarrow> EXIFField list \<Rightarrow> EXIFField \<Rightarrow> (int option \<times> int option \<times> int option) option" where
  "displayDate h flds f =
     (case findCorrespondingDate flds f of
        Some s \<Rightarrow>
          if s = [] then (case today h of (y, mo, d) \<Rightarrow> Some (Some y, Some mo, Some d))
          else (case dateMatch s of
                  None \<Rightarrow> None
                | Some (year, month, day) \<Rightarrow>
                    Some (parseInt (Some year), map_option (\<lambda>m. m - 1) (parseInt (Some month)),
                          parseInt (Some day)))
      | None \<Rightarrow> (case today h of (y, mo, d) \<Rightarrow> Some (Some y, Some mo, Some d)))"


section \<open>What a save may change\<close>

text \<open>
  Two buffers of the same length that agree outside a set of positions; the bytes of a field
  (\<open>count\<close> bytes from \<open>valueOffset\<close>, eight times as many for the time field); the bytes of
  the fields that a list of inputs edits, which are the fields whose new value is not empty;
  and a sequence of saves on the same page.
\<close>

definition sameOutside :: "nat set \<Rightarrow> buffer \<Rightarrow> buffer \<Rightarrow> bool" where
  "sameOutside R b b' \<longleftrightarrow> length b' = length b \<and> (\<forall>i<length b. i \<notin> R \<longrightarrow> b' ! i = b ! i)"





lemma sameOutside_refl [simp]: "sameOutside R b b"
  by (simp add: sameOutside_def)

lemma sameOutside_trans:
  "sameOutside R a b \<Longrightarrow> sameOutside R' b c \<Longrightarrow> sameOutside (R \<union> R') a c"
  by (simp add: sameOutside_def)

lemma sameOutside_mono: "sameOutside R a b \<Longrightarrow> R \<subseteq> R' \<Longrightarrow> sameOutside R' a b"
  by (auto simp: sameOutside_def)

lemma thenW_None [simp]: "thenW (b, None) f = f b"
  by (simp add: thenW_def)

lemma thenW_Some [simp]: "thenW (b, Some e) f = (b, Some e)"
  by (simp add: thenW_def)

lemma sameOutside_thenW:
  assumes "sameOutside R b (fst r)" and "\<And>b'. sameOutside R' b' (fst (f b'))"
  shows "sameOutside (R \<union> R') b (fst (thenW r f))"
proof (cases r)
  case (Pair b1 e)
  show ?thesis
  proof (cases e)
    case None
    then show ?thesis
      using assms Pair sameOutside_trans [of R b b1 R' "fst (f b1)"] by simp
  next
    case (Some x)
    then show ?thesis
      using assms(1) Pair by (simp add: sameOutside_mono)
  qed
qed


lemma frame_setUint32: "sameOutside {off ..< off + 4} b (fst (setUint32 b off v le))"
  by (auto simp: setUint32_def sameOutside_def nth_list_update)


lemma frame_writeRationals:
  "sameOutside {vo + 8 * i ..< vo + 8 * (i + n)} b (fst (writeRationals b vo target i n))"
proof (induction n arbitrary: b i)
  case 0
  then show ?case by simp
next
  case (Suc n)
  let ?R = "{vo + 8 * i ..< vo + 8 * i + 4} \<union>
            ({vo + 8 * i + 4 ..< vo + 8 * i + 4 + 4} \<union> {vo + 8 * Suc i ..< vo + 8 * (Suc i + n)})"
  have "sameOutside ?R b (fst (writeRationals b vo target i (Suc n)))"
    unfolding writeRationals.simps
    by (intro sameOutside_thenW frame_setUint32 Suc.IH)
  moreover have "?R \<subseteq> {vo + 8 * i ..< vo + 8 * (i + Suc n)}" by auto
  ultimately show ?case by (rule sameOutside_mono)
qed












section \<open>Claims about the save\<close>




section \<open>The ASCII patch, byte by byte\<close>









section \<open>Claims about the ASCII patch\<close>





section \<open>The time patch, read back\<close>

text \<open>
  What \<open>setUint32\<close> stores big-endian, \<open>getUint32\<close> reads back big-endian; so the pairs that
  the time patch writes are, for a big-endian reader, the components over 1.
\<close>

lemma be32_sum:
  assumes "v < 4294967296"
  shows "16777216 * (v div 16777216 mod 256) + 65536 * (v div 65536 mod 256)
         + 256 * (v div 256 mod 256) + v mod 256 = (v::nat)"
proof -
  have a: "v div 16777216 mod 256 = v div 16777216"
    using assms by simp
  have b: "v div 65536 = 256 * (v div 16777216) + v div 65536 mod 256"
    using div_mult_mod_eq [of "v div 65536" 256] by (simp add: div_mult2_eq [symmetric])
  have c: "v div 256 = 256 * (v div 65536) + v div 256 mod 256"
    using div_mult_mod_eq [of "v div 256" 256] by (simp add: div_mult2_eq [symmetric])
  have d: "v = 256 * (v div 256) + v mod 256"
    by simp
  show ?thesis
    unfolding a using b c d by linarith
qed

lemma unat_of_nat_byte: "unat (of_nat n :: byte) = n mod 256"
  by (simp add: unat_of_nat)

lemma getUint32_setUint32_same:
  assumes "off + 4 \<le> length b" and "v < 4294967296"
  shows "getUint32 (fst (setUint32 b off v False)) off False = Inr v"
proof -
  let ?b' = "b[off := of_nat (v div 16777216), off + 1 := of_nat (v div 65536),
               off + 2 := of_nat (v div 256), off + 3 := of_nat v]"
  have n: "?b' ! off = of_nat (v div 16777216)" "?b' ! (off + 1) = of_nat (v div 65536)"
    "?b' ! (off + 2) = of_nat (v div 256)" "?b' ! (off + 3) = of_nat v"
    using assms(1) by (simp_all add: nth_list_update)
  have "getUint32 ?b' off False =
      Inr (16777216 * (v div 16777216 mod 256) + 65536 * (v div 65536 mod 256)
         + 256 * (v div 256 mod 256) + v mod 256)"
    using assms(1) unfolding getUint32_def n unat_of_nat_byte by simp
  then have g: "getUint32 ?b' off False = Inr v"
    by (simp only: be32_sum [OF assms(2)])
  have w: "fst (setUint32 b off v False) = ?b'"
    using assms(1) by (simp add: setUint32_def)
  show ?thesis
    unfolding w by (fact g)
qed

lemma setUint32_in_range:
  "off + 4 \<le> length b \<Longrightarrow> snd (setUint32 b off v le) = None"
  by (simp add: setUint32_def)

lemma getUint32_sameOutside:
  assumes "sameOutside R b b'" and "R \<inter> {off ..< off + 4} = {}"
  shows "getUint32 b' off le = getUint32 b off le"
proof (cases "off + 4 \<le> length b")
  case False
  then show ?thesis using assms(1) by (simp add: getUint32_def sameOutside_def)
next
  case True
  have "off + k \<notin> R" if "k < 4" for k
    using assms(2) that by (auto simp: disjoint_iff)
  then have "b' ! (off + k) = b ! (off + k)" if "k < 4" for k
    using assms(1) True that by (simp add: sameOutside_def)
  from this [of 0] this [of 1] this [of 2] this [of 3]
  show ?thesis using assms(1) by (simp add: getUint32_def sameOutside_def)
qed

lemma toUint32_bound: "toUint32 x < 4294967296"
proof (cases x)
  case None
  then show ?thesis by simp
next
  case (Some y)
  then show ?thesis
  proof (cases y)
    case NaN
    then show ?thesis using Some by simp
  next
    case (Num q)
    have "(if 0 \<le> q then \<lfloor>q\<rfloor> else \<lceil>q\<rceil>) mod 4294967296 < 4294967296"
      by (rule pos_mod_bound) simp
    then show ?thesis using Some Num by (simp add: nat_less_iff)
  qed
qed

lemma writeRationals_roundtrip:
  assumes "vo + 8 * (i + n) \<le> length b"
  shows "snd (writeRationals b vo target i n) = None \<and>
         readRationals (fst (writeRationals b vo target i n)) False (vo + 8 * i) n
           = Inr (map (\<lambda>k. (toUint32 (nthOrUndefined target k), 1)) [i ..< i + n])"
  using assms
proof (induction n arbitrary: b i)
  case 0
  then show ?case by simp
next
  case (Suc n)
  let ?x = "toUint32 (nthOrUndefined target i)"
  let ?p = "vo + 8 * i"
  let ?w1 = "setUint32 b ?p ?x False"
  let ?w2 = "setUint32 (fst ?w1) (?p + 4) 1 False"
  let ?w3 = "writeRationals (fst ?w2) vo target (Suc i) n"
  have l1: "length (fst ?w1) = length b" and l2: "length (fst ?w2) = length b"
    by (simp_all add: setUint32_def)
  have in1: "?p + 4 \<le> length b" and in2: "?p + 4 + 4 \<le> length (fst ?w1)"
    using Suc.prems l1 by simp_all
  have s1: "?w1 = (fst ?w1, None)" and s2: "?w2 = (fst ?w2, None)"
    using setUint32_in_range [OF in1] setUint32_in_range [OF in2]
    by (simp_all add: prod_eq_iff)
  have unfold: "writeRationals b vo target i (Suc n) = ?w3"
    by (subst writeRationals.simps, subst s1, simp only: thenW_None, subst s2, simp only: thenW_None)
  have ih: "snd ?w3 = None \<and>
         readRationals (fst ?w3) False (vo + 8 * Suc i) n
           = Inr (map (\<lambda>k. (toUint32 (nthOrUndefined target k), 1)) [Suc i ..< Suc i + n])"
    using Suc.prems l2 by (intro Suc.IH) simp
  have f3: "sameOutside {vo + 8 * Suc i ..< vo + 8 * (Suc i + n)} (fst ?w2) (fst ?w3)"
    by (rule frame_writeRationals)
  have f2: "sameOutside {?p + 4 ..< ?p + 4 + 4} (fst ?w1) (fst ?w2)"
    by (rule frame_setUint32)
  have num: "getUint32 (fst ?w3) ?p False = Inr ?x"
  proof -
    have "getUint32 (fst ?w3) ?p False = getUint32 (fst ?w2) ?p False"
      by (rule getUint32_sameOutside [OF f3]) auto
    also have "\<dots> = getUint32 (fst ?w1) ?p False"
      by (rule getUint32_sameOutside [OF f2]) auto
    also have "\<dots> = Inr ?x"
      by (rule getUint32_setUint32_same [OF in1 toUint32_bound])
    finally show ?thesis .
  qed
  have den: "getUint32 (fst ?w3) (?p + 4) False = Inr 1"
  proof -
    have "getUint32 (fst ?w3) (?p + 4) False = getUint32 (fst ?w2) (?p + 4) False"
      by (rule getUint32_sameOutside [OF f3]) auto
    also have "\<dots> = Inr 1"
      using getUint32_setUint32_same [of "?p + 4" "fst ?w1" 1] in2 by simp
    finally show ?thesis .
  qed
  have e: "?p + 8 = vo + 8 * Suc i" by simp
  have up: "[i ..< i + Suc n] = i # [Suc i ..< Suc i + n]"
    by (simp add: upt_rec)
  have rd: "readRationals (fst ?w3) False ?p (Suc n)
      = Inr ((?x, 1) # map (\<lambda>k. (toUint32 (nthOrUndefined target k), 1)) [Suc i ..< Suc i + n])"
    by (simp only: readRationals.simps num den andThen_Inr e conjunct2 [OF ih])
  show ?case
    unfolding unfold up
    by (simp only: rd list.map conjunct1 [OF ih] simp_thms)
qed

lemma time_patch_roundtrip_big_endian:
  assumes "valueOffset f + 8 * count f \<le> length b"
  shows "\<exists>b'. patchTime b f target = (b', None) \<and>
           readRationals b' False (valueOffset f) (count f)
             = Inr (map (\<lambda>k. (toUint32 (nthOrUndefined target k), 1)) [0 ..< count f])"
  using writeRationals_roundtrip [of "valueOffset f" 0 "count f" b target] assms
  by (simp add: patchTime_def prod_eq_iff)

text \<open>
  The GPSTimeStamp field of the sample file, and the concrete scenario of the specification
  on it: \<open>[12, 30, 0]\<close> patched to \<open>[13, 0, 0]\<close> in a big-endian file.
\<close>

definition gpsTimeField :: EXIFField where
  "gpsTimeField =
     \<lparr>label = ''GPSTimeStamp (GPS IFD)'', name = ''GPSTimeStamp'', ifd = ''GPS'', tag = 0x0007,
      count = 3, valueOffset = 182, fvalue = VArr [12, 30, 0], ftype = TTime\<rparr>"

lemma sample_time_patch:
  "\<exists>b'. patchTime sampleJpeg gpsTimeField [Num 13, Num 0, Num 0] = (b', None) \<and>
        readRationals b' False 182 3 = Inr [(13, 1), (0, 1), (0, 1)] \<and>
        rationalValue 3 [(13, 1), (0, 1), (0, 1)] = VArr [13, 0, 0]"
proof -
  have "valueOffset gpsTimeField + 8 * count gpsTimeField \<le> length sampleJpeg"
    by (simp add: gpsTimeField_def sampleJpeg_def)
  from time_patch_roundtrip_big_endian [OF this, of "[Num 13, Num 0, Num 0]"]
  show ?thesis
    by (simp add: gpsTimeField_def nthOrUndefined_def upt_rec rationalValue_def quotient_def)
qed

section \<open>Claims about the time patch\<close>

text \<open>
  A file that the reader takes as little-endian (mark \<open>II\<close>; the magic number and the first
  offset big-endian, as the header check wants them; the directories little-endian) with a GPS
  directory that holds GPSTimeStamp = 12/1, 30/1, 0/1; and the same file after the patch with
  \<open>[13, 0, 0]\<close>.
\<close>

definition gpsLeJpeg :: buffer where
  "gpsLeJpeg =
    [0xFF, 0xD8, 0xFF, 0xE1, 0x00, 0x4C, 0x45, 0x78, 0x69, 0x66, 0x00, 0x00,
     0x49, 0x49, 0x00, 0x2A, 0x00, 0x00, 0x00, 0x08, 0x01, 0x00, 0x25, 0x88,
     0x04, 0x00, 0x01, 0x00, 0x00, 0x00, 0x1A, 0x00, 0x00, 0x00, 0x00, 0x00,
     0x00, 0x00, 0x01, 0x00, 0x07, 0x00, 0x05, 0x00, 0x03, 0x00, 0x00, 0x00,
     0x2C, 0x00, 0x00, 0x00, 0x00, 0x00, 0x00, 0x00, 0x0C, 0x00, 0x00, 0x00,
     0x01, 0x00, 0x00, 0x00, 0x1E, 0x00, 0x00, 0x00, 0x01, 0x00, 0x00, 0x00,
     0x00, 0x00, 0x00, 0x00, 0x01, 0x00, 0x00, 0x00, 0xFF, 0xD9]"

definition gpsLePatched :: buffer where
  "gpsLePatched =
    [0xFF, 0xD8, 0xFF, 0xE1, 0x00, 0x4C, 0x45, 0x78, 0x69, 0x66, 0x00, 0x00,
     0x49, 0x49, 0x00, 0x2A, 0x00, 0x00, 0x00, 0x08, 0x01, 0x00, 0x25, 0x88,
     0x04, 0x00, 0x01, 0x00, 0x00, 0x00, 0x1A, 0x00, 0x00, 0x00, 0x00, 0x00,
     0x00, 0x00, 0x01, 0x00, 0x07, 0x00, 0x05, 0x00, 0x03, 0x00, 0x00, 0x00,
     0x2C, 0x00, 0x00, 0x00, 0x00, 0x00, 0x00, 0x00, 0x00, 0x00, 0x00, 0x0D,
     0x00, 0x00, 0x00, 0x01, 0x00, 0x00, 0x00, 0x00, 0x00, 0x00, 0x00, 0x01,
     0x00, 0x00, 0x00, 0x00, 0x00, 0x00, 0x00, 0x01, 0xFF, 0xD9]"

definition gpsLeField :: EXIFField where
  "gpsLeField =
     \<lparr>label = ''GPSTimeStamp (GPS IFD)'', name = ''GPSTimeStamp'', ifd = ''GPS'', tag = 0x0007,
      count = 3, valueOffset = 56, fvalue = VArr [12, 30, 0], ftype = TTime\<rparr>"

lemma list_update_numeral:
  "(x # xs)[numeral k := y] = x # xs[pred_numeral k := y]"
  by (simp add: numeral_eq_Suc)

lemma writeRationals_numeral:
  "writeRationals b vo target i (numeral k) =
     thenW (setUint32 b (vo + 8 * i) (toUint32 (nthOrUndefined target i)) False) (\<lambda>b1.
     thenW (setUint32 b1 (vo + 8 * i + 4) 1 False) (\<lambda>b2.
       writeRationals b2 vo target (Suc i) (pred_numeral k)))"
  by (simp add: numeral_eq_Suc)

lemma thenW_weak_cong: "r = r' \<Longrightarrow> thenW r f = thenW r' f"
  by simp

text \<open>
  C4. The patch writes with \<open>dv.setUint32(abs, target[i])\<close> and \<open>dv.setUint32(abs + 4, 1)\<close>,
  without the byte-order argument, so always big-endian, while \<open>readIFD\<close> reads with the
  byte order of the file. In a big-endian file the claim holds (\<open>time_patch_roundtrip_big_endian\<close>,
  \<open>sample_time_patch\<close>). In a file read as little-endian the pairs stored for \<open>[13, 0, 0]\<close>
  are, as the reader reads them, 218103808/16777216, 0/16777216, 0/16777216 and not 13/1, 0/1,
  0/1; the quotients still are 13, 0, 0 because numerator and denominator are swapped alike.
  A component of 256 or more does not survive: 300 is read back as 11265/256.
\<close>

theorem time_patch_ignores_byte_order:
  "parseExifDates gpsLeJpeg = Inr [gpsLeField] \<and>
   patchTime gpsLeJpeg gpsLeField [Num 13, Num 0, Num 0] = (gpsLePatched, None) \<and>
   readRationals gpsLePatched True (valueOffset gpsLeField) (count gpsLeField)
     = Inr [(218103808, 16777216), (0, 16777216), (0, 16777216)] \<and>
   (\<exists>b'. patchTime gpsLeJpeg gpsLeField [Num 300, Num 0, Num 0] = (b', None) \<and>
         readRationals b' True (valueOffset gpsLeField) (count gpsLeField)
           = Inr [(738263040, 16777216), (0, 16777216), (0, 16777216)] \<and>
         quotient (738263040, 16777216) = 11265 / 256)"
proof -
  have 1: "parseExifDates gpsLeJpeg = Inr [gpsLeField]"
    by (simp add: gpsLeJpeg_def gpsLeField_def eval_defs eval_loops cong: andThen_weak_cong)
  have 2: "patchTime gpsLeJpeg gpsLeField [Num 13, Num 0, Num 0] = (gpsLePatched, None)"
    by (simp add: gpsLeJpeg_def gpsLePatched_def gpsLeField_def patchTime_def
          writeRationals_numeral setUint32_def nthOrUndefined_def list_update_numeral
          cong: thenW_weak_cong)
  have 3: "readRationals gpsLePatched True (valueOffset gpsLeField) (count gpsLeField)
     = Inr [(218103808, 16777216), (0, 16777216), (0, 16777216)]"
    by (simp add: gpsLePatched_def gpsLeField_def getUint32_def eval_loops
          cong: andThen_weak_cong)
  have 4: "\<exists>b'. patchTime gpsLeJpeg gpsLeField [Num 300, Num 0, Num 0] = (b', None) \<and>
         readRationals b' True (valueOffset gpsLeField) (count gpsLeField)
           = Inr [(738263040, 16777216), (0, 16777216), (0, 16777216)] \<and>
         quotient (738263040, 16777216) = 11265 / 256"
    by (simp add: gpsLeJpeg_def gpsLeField_def patchTime_def writeRationals_numeral
          setUint32_def nthOrUndefined_def list_update_numeral getUint32_def eval_loops
          quotient_def cong: thenW_weak_cong andThen_weak_cong)
  show ?thesis using 1 2 3 4 by blast
qed


end
